theory Spec2Isabelle
  imports Main "HOL-Library.Sublist"
begin

section \<open>Strings, dictionaries and errors\<close>

text \<open>
  A Python \<open>str\<close> is a sequence of Unicode code points; a character of a label is a
  string of length one. Code points are natural numbers here, and the class tables are
  lists of strings, as in the source. \<open>unicodedata.normalize("NFKD", c)\<close> leaves every
  entry of the Hindi and Malayalam tables unchanged (none of them has a decomposition),
  so the normalised tables are the literal ones.
\<close>

type_synonym uchar = nat
type_synonym ustr = "uchar list"

datatype error = AssertionError | Exception | IndexError | KeyError

text \<open>A list of one-character strings, written by its code points.\<close>

definition chars_of :: "uchar list \<Rightarrow> ustr list" where
  "chars_of cs = map (\<lambda>c. [c]) cs"

text \<open>\<open>{c: k for k, c in enumerate(xs)}\<close>: a later entry overwrites an earlier one.\<close>

definition enum_dict :: "'a list \<Rightarrow> ('a \<rightharpoonup> nat)" where
  "enum_dict xs = fold (\<lambda>(k, c) m. m(c \<mapsto> k)) (zip [0..<length xs] xs) Map.empty"

text \<open>\<open>{k: c for k, c in enumerate(xs)}\<close>.\<close>

definition enum_map :: "'a list \<Rightarrow> (nat \<rightharpoonup> 'a)" where
  "enum_map xs = (\<lambda>k. if k < length xs then Some (xs ! k) else None)"

abbreviation has_key :: "('k \<rightharpoonup> 'v) \<Rightarrow> 'k \<Rightarrow> bool" where
  "has_key m k \<equiv> m k \<noteq> None"

text \<open>The slice \<open>s[a:b]\<close> for \<open>0 \<le> a \<le> b\<close>.\<close>

definition slice :: "'a list \<Rightarrow> nat \<Rightarrow> nat \<Rightarrow> 'a list" where
  "slice s a b = take (b - a) (drop a s)"

section \<open>HindiTokenizer: the class tables\<close>

definition BLANK :: ustr where "BLANK = [91, 66, 93]"
definition EOS :: ustr where "EOS = [91, 69, 93]"
definition PAD :: ustr where "PAD = [91, 80, 93]"

definition vyanjan :: "ustr list" where
  "vyanjan = chars_of
     [2325, 2326, 2327, 2328, 2329,
      2330, 2331, 2332, 2333, 2334,
      2335, 2336, 2337, 2338, 2339,
      2340, 2341, 2342, 2343, 2344,
      2346, 2347, 2348, 2349, 2350,
      2351, 2352, 2354, 2355, 2357, 2358,
      2359, 2360, 2361]"

definition svar :: "ustr list" where
  "svar = chars_of
     [2309, 2310, 2311, 2312, 2313,
      2314, 2315, 2400, 2319, 2320,
      2323, 2324, 2418, 2317, 2321]"

definition matras :: "ustr list" where
  "matras = chars_of
     [2366, 2367, 2368, 2369, 2370, 2371, 2375, 2376, 2379, 2380, 2373, 2377,
      2305, 2306, 2307, 2364]"

definition chinh :: "ustr list" where
  "chinh = chars_of [2384, 8377, 2404, 33, 36, 44, 46, 45, 37, 2405, 2429]"

definition ank :: "ustr list" where
  "ank = chars_of [2406, 2407, 2408, 2409, 2410, 2411, 2412, 2413, 2414, 2415]"

definition halanth :: ustr where "halanth = [2381]"

definition h_c_classes :: "ustr list" where
  "h_c_classes = [EOS, PAD, BLANK] @ vyanjan"

definition f_c_classes :: "ustr list" where
  "f_c_classes = [EOS, PAD] @ vyanjan @ svar @ ank @ chinh"

definition d_classes :: "ustr list" where
  "d_classes = [EOS, PAD] @ matras"

definition eos_id :: int where "eos_id = 0"
definition pad_id :: int where "pad_id = 1"
definition blank_id :: int where "blank_id = 2"

definition h_c_label_map :: "nat \<rightharpoonup> ustr" where
  "h_c_label_map = enum_map h_c_classes"

definition f_c_label_map :: "nat \<rightharpoonup> ustr" where
  "f_c_label_map = enum_map f_c_classes"

definition d_c_label_map :: "nat \<rightharpoonup> ustr" where
  "d_c_label_map = enum_map d_classes"

definition rev_h_c_label_map :: "ustr \<rightharpoonup> nat" where
  "rev_h_c_label_map = enum_dict h_c_classes"

definition rev_f_c_label_map :: "ustr \<rightharpoonup> nat" where
  "rev_f_c_label_map = enum_dict f_c_classes"

definition rev_d_label_map :: "ustr \<rightharpoonup> nat" where
  "rev_d_label_map = enum_dict d_classes"

section \<open>HindiTokenizer: segmentation\<close>

definition check_h_c :: "ustr \<Rightarrow> nat \<Rightarrow> bool" where
  "check_h_c label idx \<longleftrightarrow>
     idx < length label \<and> has_key rev_h_c_label_map [label ! idx]
     \<and> idx + 1 < length label \<and> [label ! (idx + 1)] = halanth"

definition check_f_c :: "ustr \<Rightarrow> nat \<Rightarrow> bool" where
  "check_f_c label idx \<longleftrightarrow>
     idx < length label \<and> has_key rev_f_c_label_map [label ! idx]
     \<and> (idx + 1 \<ge> length label \<or> [label ! (idx + 1)] \<noteq> halanth)"

definition check_d_c :: "ustr \<Rightarrow> nat \<Rightarrow> bool" where
  "check_d_c label idx \<longleftrightarrow> idx < length label \<and> has_key rev_d_label_map [label ! idx]"

text \<open>
  One pass of the body of the \<open>while\<close> loop of \<open>label_transform\<close>, from \<open>t = idx\<close> to
  the test \<open>t == idx\<close>: the three stages extend the running group and advance the index.
\<close>

definition scan_h_c :: "ustr \<Rightarrow> ustr \<times> nat \<Rightarrow> ustr \<times> nat" where
  "scan_h_c label = (\<lambda>(running_grp, idx).
     if check_h_c label idx then
       (let running_grp = running_grp @ slice label idx (idx + 2); idx = idx + 2 in
        if check_h_c label idx then (running_grp @ slice label idx (idx + 2), idx + 2)
        else (running_grp, idx))
     else (running_grp, idx))"

definition scan_f_c :: "ustr \<Rightarrow> ustr \<times> nat \<Rightarrow> ustr \<times> nat" where
  "scan_f_c label = (\<lambda>(running_grp, idx).
     if check_f_c label idx then (running_grp @ [label ! idx], idx + 1)
     else (running_grp, idx))"

definition scan_d_c :: "ustr \<Rightarrow> ustr \<times> nat \<Rightarrow> ustr \<times> nat" where
  "scan_d_c label = (\<lambda>(running_grp, idx).
     if check_d_c label idx then
       (let running_grp = running_grp @ [label ! idx]; idx = idx + 1 in
        if check_d_c label idx then (running_grp @ [label ! idx], idx + 1)
        else (running_grp, idx))
     else (running_grp, idx))"

definition scan_grp :: "ustr \<Rightarrow> nat \<Rightarrow> ustr \<times> nat" where
  "scan_grp label idx = scan_d_c label (scan_f_c label (scan_h_c label ([], idx)))"

lemma scan_grp_advances: "idx \<le> snd (scan_grp label idx)"
  by (simp add: scan_grp_def scan_h_c_def scan_f_c_def scan_d_c_def Let_def)

text \<open>
  The \<open>while\<close> loop. \<open>None\<close> is the early \<open>return ()\<close> taken when a pass consumed
  nothing; \<open>Some grps\<close> is the tuple of groups handed to \<open>grp_sanity\<close>.
\<close>

function label_scan :: "ustr \<Rightarrow> nat \<Rightarrow> ustr list \<Rightarrow> ustr list option" where
  "label_scan label idx grps =
     (if idx < length label then
        (case scan_grp label idx of
           (running_grp, idx') \<Rightarrow>
             if idx = idx' then None
             else label_scan label idx' (grps @ [running_grp]))
      else Some grps)"
  by pat_completeness auto
termination label_scan
proof (relation "measure (\<lambda>(label, idx, grps). length label - idx)", goal_cases)
  case 1
  show ?case by simp
next
  case (2 label idx grps running_grp idx')
  have "idx \<le> snd (scan_grp label idx)"
    by (rule scan_grp_advances)
  with 2 have "idx < idx'"
    by (metis le_neq_implies_less snd_conv)
  with 2 show ?case by simp
qed

declare label_scan.simps [simp del]

section \<open>HindiTokenizer: validation\<close>

text \<open>
  The inner \<open>while\<close> loop of \<open>grp_sanity\<close> over one group. The state is the three
  remaining allowances and the list \<open>d_seen\<close>; \<open>None\<close> is the \<open>return False\<close> of the
  duplicate branch. The last branch only prints.
\<close>

function grp_walk :: "ustr \<Rightarrow> int \<times> int \<times> int \<Rightarrow> ustr list \<Rightarrow> nat \<Rightarrow> (int \<times> int \<times> int) option" where
  "grp_walk grp cnt d_seen i =
     (case cnt of (h_c_count, f_c_count, d_c_count) \<Rightarrow>
      if i < length grp then
        if i + 1 < length grp \<and> halanth = [grp ! (i + 1)]
           \<and> has_key rev_h_c_label_map [grp ! i] \<and> h_c_count > 0
        then grp_walk grp (h_c_count - 1, f_c_count, d_c_count) d_seen (i + 1 + 1)
        else if has_key rev_f_c_label_map [grp ! i] \<and> f_c_count > 0
        then grp_walk grp (h_c_count, f_c_count - 1, d_c_count) d_seen (i + 1)
        else if has_key rev_d_label_map [grp ! i] \<and> d_c_count = 2
        then grp_walk grp (h_c_count, f_c_count, d_c_count - 1) (d_seen @ [[grp ! i]]) (i + 1)
        else if has_key rev_d_label_map [grp ! i] \<and> d_c_count \<noteq> 2 \<and> [grp ! i] \<notin> set d_seen
        then grp_walk grp (h_c_count, f_c_count, d_c_count - 1) d_seen (i + 1)
        else if has_key rev_d_label_map [grp ! i] \<and> d_c_count \<noteq> 2 \<and> [grp ! i] \<in> set d_seen
        then None
        else grp_walk grp (h_c_count, f_c_count, d_c_count) d_seen (i + 1)
      else Some (h_c_count, f_c_count, d_c_count))"
  by pat_completeness auto
termination
  by (relation "measure (\<lambda>(grp, cnt, d_seen, i). length grp - i)") auto

declare grp_walk.simps [simp del]

text \<open>The verdict on one group: the walk, then the test after it.\<close>

definition grp_ok :: "ustr \<Rightarrow> bool" where
  "grp_ok grp =
     (case grp_walk grp (2, 1, 2) [] 0 of
        None \<Rightarrow> False
      | Some (h_c_count, f_c_count, d_c_count) \<Rightarrow>
          \<not> (f_c_count = 1 \<or> (h_c_count, f_c_count, d_c_count) = (2, 1, 2)))"

text \<open>The \<open>for\<close> loop over the groups: the first failing group returns \<open>False\<close>.\<close>

fun grp_sanity :: "ustr \<Rightarrow> ustr list \<Rightarrow> bool" where
  "grp_sanity label [] = True"
| "grp_sanity label (grp # grps) = (if grp_ok grp then grp_sanity label grps else False)"

definition label_transform :: "ustr \<Rightarrow> ustr list" where
  "label_transform label =
     (case label_scan label 0 [] of
        None \<Rightarrow> []
      | Some grps \<Rightarrow> if grp_sanity label grps then grps else [])"

text \<open>
  The positions at which the \<open>while\<close> loop of \<open>label_transform\<close> starts a pass:
  position 0, and every position a pass that consumed something has advanced to.
\<close>

inductive scan_pos :: "ustr \<Rightarrow> nat \<Rightarrow> bool" for label :: ustr where
  start: "scan_pos label 0"
| step: "scan_pos label idx \<Longrightarrow> idx < length label
         \<Longrightarrow> scan_grp label idx = (running_grp, idx')
         \<Longrightarrow> idx \<noteq> idx' \<Longrightarrow> scan_pos label idx'"

text \<open>
  The three membership tests \<open>c in self.rev_h_c_label_map\<close>, \<open>c in self.rev_f_c_label_map\<close>
  and \<open>c in self.rev_d_label_map\<close> for a single character.
\<close>

definition is_h :: "uchar \<Rightarrow> bool" where "is_h c \<longleftrightarrow> has_key rev_h_c_label_map [c]"
definition is_f :: "uchar \<Rightarrow> bool" where "is_f c \<longleftrightarrow> has_key rev_f_c_label_map [c]"
definition is_d :: "uchar \<Rightarrow> bool" where "is_d c \<longleftrightarrow> has_key rev_d_label_map [c]"

section \<open>HindiTokenizer: the encoder\<close>

text \<open>
  The \<open>for\<close> loop of \<open>grp_class_encoder\<close> over the characters of one group. The state is
  \<open>(h_c_2_target, h_c_1_target, f_c_target, d_target, halanth_cntr)\<close>; a failed \<open>assert\<close> is
  \<open>Inl AssertionError\<close> and a \<open>raise Exception\<close> is \<open>Inl Exception\<close>.
\<close>

type_synonym grp_state = "int \<times> int \<times> int \<times> int list \<times> int"

function grp_class_loop :: "ustr \<Rightarrow> nat \<Rightarrow> grp_state \<Rightarrow> error + grp_state" where
  "grp_class_loop grp i st =
     (case st of (h_c_2_target, h_c_1_target, f_c_target, d_target, halanth_cntr) \<Rightarrow>
      if i < length grp then
        if has_key rev_h_c_label_map [grp ! i] \<and> i + 1 < length grp \<and> [grp ! (i + 1)] = halanth
        then
          (if h_c_1_target = blank_id
           then grp_class_loop grp (i + 1)
                  (h_c_2_target, int (the (rev_h_c_label_map [grp ! i])), f_c_target, d_target,
                   halanth_cntr)
           else grp_class_loop grp (i + 1)
                  (h_c_1_target, int (the (rev_h_c_label_map [grp ! i])), f_c_target, d_target,
                   halanth_cntr))
        else if has_key rev_f_c_label_map [grp ! i]
        then
          (if f_c_target \<noteq> - 1 then Inl AssertionError
           else grp_class_loop grp (i + 1)
                  (h_c_2_target, h_c_1_target, int (the (rev_f_c_label_map [grp ! i])), d_target,
                   halanth_cntr))
        else if has_key rev_d_label_map [grp ! i]
        then
          (if d_target ! the (rev_d_label_map [grp ! i]) \<noteq> 0 then Inl AssertionError
           else grp_class_loop grp (i + 1)
                  (h_c_2_target, h_c_1_target, f_c_target,
                   d_target[the (rev_d_label_map [grp ! i]) := 1], halanth_cntr))
        else if [grp ! i] = halanth \<and> halanth_cntr < 2
        then grp_class_loop grp (i + 1)
               (h_c_2_target, h_c_1_target, f_c_target, d_target, halanth_cntr + 1)
        else if [grp ! i] = halanth \<and> halanth_cntr \<ge> 2
        then Inl Exception
        else Inl Exception
      else Inr st)"
  by pat_completeness auto
termination
  by (relation "measure (\<lambda>(grp, i, st). length grp - i)") auto

declare grp_class_loop.simps [simp del]

definition grp_class_encoder :: "ustr \<Rightarrow> error + (int \<times> int \<times> int \<times> int list)" where
  "grp_class_encoder grp =
     (case grp_class_loop grp 0
             (blank_id, blank_id, - 1, replicate (length d_classes) 0, 0) of
        Inl e \<Rightarrow> Inl e
      | Inr (h_c_2_target, h_c_1_target, f_c_target, d_target, halanth_cntr) \<Rightarrow>
          if \<not> f_c_target \<noteq> - 1 then Inl AssertionError
          else if \<not> sum_list d_target \<le> 2 then Inl AssertionError
          else Inr (h_c_2_target, h_c_1_target, f_c_target, d_target))"

text \<open>
  The value returned by \<open>label_encoder\<close>: the three index tensors of length \<open>max_grps\<close>, the
  \<open>max_grps \<times> len(d_classes)\<close> diacritic tensor, and \<open>len(grps)\<close>. The device plays no role.
\<close>

record encoded_label =
  enc_h_c_2 :: "int list"
  enc_h_c_1 :: "int list"
  enc_f_c :: "int list"
  enc_d :: "int list list"
  enc_len :: nat

text \<open>
  The loop \<open>for idx, grp in enumerate(grps, start=0)\<close>: row \<open>idx\<close> of every tensor is
  overwritten with the encoding of the group; an exception of \<open>grp_class_encoder\<close> ends it.
\<close>

fun encode_grps :: "ustr list \<Rightarrow> nat \<Rightarrow> encoded_label \<Rightarrow> error + encoded_label" where
  "encode_grps [] idx e = Inr e"
| "encode_grps (grp # grps) idx e =
     (case grp_class_encoder grp of
        Inl err \<Rightarrow> Inl err
      | Inr (h_c_2_target, h_c_1_target, f_c_target, d_target) \<Rightarrow>
          encode_grps grps (idx + 1)
            (e\<lparr>enc_h_c_2 := (enc_h_c_2 e)[idx := h_c_2_target],
               enc_h_c_1 := (enc_h_c_1 e)[idx := h_c_1_target],
               enc_f_c := (enc_f_c e)[idx := f_c_target],
               enc_d := (enc_d e)[idx := d_target]\<rparr>))"

text \<open>The four tensors as initialised: \<open>torch.full\<close>, \<open>torch.zeros\<close> and \<open>d_target[:, pad_id] = 1\<close>.\<close>

definition init_targets :: "nat \<Rightarrow> encoded_label" where
  "init_targets max_grps =
     \<lparr>enc_h_c_2 = replicate max_grps pad_id,
      enc_h_c_1 = replicate max_grps pad_id,
      enc_f_c = replicate max_grps pad_id,
      enc_d = map (\<lambda>row. row[nat pad_id := 1])
                (replicate max_grps (replicate (length d_classes) 0)),
      enc_len = 0\<rparr>"

text \<open>The branch \<open>len(grps) < max_grps\<close>: the end marker is written at \<open>eos_idx\<close>.\<close>

definition assign_eos :: "nat \<Rightarrow> encoded_label \<Rightarrow> encoded_label" where
  "assign_eos eos_idx e =
     e\<lparr>enc_h_c_2 := (enc_h_c_2 e)[eos_idx := eos_id],
       enc_h_c_1 := (enc_h_c_1 e)[eos_idx := eos_id],
       enc_f_c := (enc_f_c e)[eos_idx := eos_id],
       enc_d := (enc_d e)[eos_idx := (enc_d e ! eos_idx)[nat eos_id := 1]]\<rparr>"

definition label_encoder :: "nat \<Rightarrow> ustr \<Rightarrow> error + encoded_label" where
  "label_encoder max_grps label =
     (let grps = label_transform label;
          e = init_targets max_grps;
          (e, grps) = (if length grps < max_grps then (assign_eos (length grps) e, grps)
                       else (e, take max_grps grps))
      in case encode_grps grps 0 e of
           Inl err \<Rightarrow> Inl err
         | Inr e \<Rightarrow> Inr (e\<lparr>enc_len := length grps\<rparr>))"

section \<open>Facts about slices and dictionaries\<close>

lemma slice_append: "i \<le> j \<Longrightarrow> j \<le> k \<Longrightarrow> slice s i j @ slice s j k = slice s i k"
proof -
  assume ij: "i \<le> j" and jk: "j \<le> k"
  have "take (j - i) (drop i s) @ take (k - j) (drop (j - i) (drop i s))
          = take ((j - i) + (k - j)) (drop i s)"
    by (simp add: take_add)
  with ij jk show ?thesis by (simp add: slice_def)
qed

lemma slice_single: "i < length s \<Longrightarrow> [s ! i] = slice s i (i + 1)"
  by (simp add: slice_def take_Suc_conv_app_nth)

lemma slice_same: "slice s i i = []"
  by (simp add: slice_def)

lemma slice_drop: "i \<le> j \<Longrightarrow> slice s i j @ drop j s = drop i s"
proof -
  assume "i \<le> j"
  then have "drop j s = drop (j - i) (drop i s)" by simp
  then show ?thesis by (simp only: slice_def append_take_drop_id)
qed

lemma enum_fold_key:
  "has_key (fold (\<lambda>(k, c) m. m(c \<mapsto> k)) (zip [a..<a + length xs] xs) m) c
     \<longleftrightarrow> c \<in> set xs \<or> has_key m c"
proof (induction xs arbitrary: a m)
  case Nil
  show ?case by simp
next
  case (Cons x xs)
  have "[a..<a + length (x # xs)] = a # [Suc a..<Suc a + length xs]"
    by (simp add: upt_rec)
  with Cons.IH[of "Suc a" "m(x \<mapsto> a)"] show ?case by auto
qed

lemma enum_fold_value:
  "fold (\<lambda>(k, c) m. m(c \<mapsto> k)) (zip [a..<a + length xs] xs) m c = Some k
     \<Longrightarrow> (a \<le> k \<and> k < a + length xs \<and> xs ! (k - a) = c) \<or> m c = Some k"
proof (induction xs arbitrary: a m)
  case Nil
  then show ?case by simp
next
  case (Cons x xs)
  have upt: "[a..<a + length (x # xs)] = a # [Suc a..<Suc a + length xs]"
    by (simp add: upt_rec)
  have "fold (\<lambda>(k, c) m. m(c \<mapsto> k)) (zip [Suc a..<Suc a + length xs] xs) (m(x \<mapsto> a)) c = Some k"
    using Cons.prems unfolding upt by (simp only: zip_Cons_Cons fold_simps comp_apply prod.case)
  from Cons.IH[OF this]
  consider "Suc a \<le> k" "k < Suc a + length xs" "xs ! (k - Suc a) = c" | "(m(x \<mapsto> a)) c = Some k"
    by blast
  then show ?case
  proof cases
    case 1
    then have "(x # xs) ! (k - a) = c"
      by (simp add: nth_Cons' Suc_diff_le)
    with 1 show ?thesis by simp
  next
    case 2
    then show ?thesis by (auto split: if_splits)
  qed
qed

lemma enum_dict_key: "has_key (enum_dict xs) c \<longleftrightarrow> c \<in> set xs"
  using enum_fold_key[of 0 xs Map.empty c] by (simp add: enum_dict_def)

lemma enum_dict_None: "enum_dict xs c = None \<longleftrightarrow> c \<notin> set xs"
  using enum_dict_key[of xs c] by blast

lemma enum_dict_value: "enum_dict xs c = Some k \<Longrightarrow> k < length xs \<and> xs ! k = c"
  using enum_fold_value[of 0 xs Map.empty c k] by (simp add: enum_dict_def)

lemma enum_dict_nth:
  assumes "distinct xs" and "k < length xs"
  shows "enum_dict xs (xs ! k) = Some k"
proof -
  from assms(2) have "xs ! k \<in> set xs" by simp
  then have "has_key (enum_dict xs) (xs ! k)" by (simp only: enum_dict_None simp_thms)
  then obtain k' where k': "enum_dict xs (xs ! k) = Some k'" by blast
  from enum_dict_value[OF k'] have "k' < length xs" "xs ! k' = xs ! k" by simp_all
  with assms have "k' = k" by (simp add: nth_eq_iff_index_eq)
  with k' show ?thesis by simp
qed

lemma is_h_iff: "is_h c \<longleftrightarrow> [c] \<in> set vyanjan"
  unfolding is_h_def rev_h_c_label_map_def enum_dict_None h_c_classes_def
  by (simp add: EOS_def PAD_def BLANK_def)

lemma is_f_iff: "is_f c \<longleftrightarrow> [c] \<in> set (vyanjan @ svar @ ank @ chinh)"
  unfolding is_f_def rev_f_c_label_map_def enum_dict_None f_c_classes_def
  by (simp add: EOS_def PAD_def)

lemma is_d_iff: "is_d c \<longleftrightarrow> [c] \<in> set matras"
  unfolding is_d_def rev_d_label_map_def enum_dict_None d_classes_def
  by (simp add: EOS_def PAD_def)

lemmas class_tables = vyanjan_def svar_def ank_def chinh_def matras_def chars_of_def

lemma rev_h_None: "rev_h_c_label_map [c] = None \<longleftrightarrow> \<not> is_h c"
  by (simp add: is_h_def)

lemma rev_f_None: "rev_f_c_label_map [c] = None \<longleftrightarrow> \<not> is_f c"
  by (simp add: is_f_def)

lemma rev_d_None: "rev_d_label_map [c] = None \<longleftrightarrow> \<not> is_d c"
  by (simp add: is_d_def)

lemmas class_eval = rev_h_None rev_f_None rev_d_None is_h_iff is_f_iff is_d_iff class_tables
  halanth_def

lemmas scan_eval = scan_grp_def scan_h_c_def scan_f_c_def scan_d_c_def
  check_h_c_def check_f_c_def check_d_c_def slice_def Let_def

lemma is_h_is_f: "is_h c \<Longrightarrow> is_f c"
  by (simp add: is_h_iff is_f_iff)

lemma halanth_class: "\<not> is_h 2381" "\<not> is_f 2381" "\<not> is_d 2381"
  unfolding is_h_iff is_d_iff is_f_iff class_tables by simp_all

lemma matras_not_full: "\<forall>s \<in> set matras. s \<notin> set (vyanjan @ svar @ ank @ chinh)"
  unfolding class_tables by simp

lemma is_d_not_f: "is_d c \<Longrightarrow> \<not> is_f c"
  unfolding is_d_iff is_f_iff using matras_not_full by blast

lemma is_d_not_h: "is_d c \<Longrightarrow> \<not> is_h c"
  using is_d_not_f is_h_is_f by blast

lemma bracket_class: "is_f c \<Longrightarrow> c \<noteq> 91" "is_d c \<Longrightarrow> c \<noteq> 91"
  unfolding is_d_iff is_f_iff class_tables by auto

lemma distinct_h_c_classes: "distinct h_c_classes"
  unfolding h_c_classes_def class_tables EOS_def PAD_def BLANK_def by simp

lemma distinct_d_classes: "distinct d_classes"
  unfolding d_classes_def class_tables EOS_def PAD_def BLANK_def by simp

section \<open>Segmentation consumes the label without gaps\<close>

lemma scan_h_c_slice:
  assumes "scan_h_c label (g, i) = (g', i')" and "i \<le> length label"
  shows "g' = g @ slice label i i' \<and> i \<le> i' \<and> i' \<le> length label"
  using assms
  by (auto simp: scan_h_c_def check_h_c_def Let_def slice_same slice_append split: if_splits)

lemma scan_f_c_slice:
  assumes "scan_f_c label (g, i) = (g', i')" and "i \<le> length label"
  shows "g' = g @ slice label i i' \<and> i \<le> i' \<and> i' \<le> length label"
  using assms
  by (auto simp: scan_f_c_def check_f_c_def Let_def slice_same slice_single split: if_splits)

lemma scan_d_c_slice:
  assumes "scan_d_c label (g, i) = (g', i')" and "i \<le> length label"
  shows "g' = g @ slice label i i' \<and> i \<le> i' \<and> i' \<le> length label"
  using assms
  by (auto simp: scan_d_c_def check_d_c_def Let_def slice_same slice_single slice_append
           split: if_splits)

lemma scan_grp_slice:
  assumes "scan_grp label i = (g, i')" and "i \<le> length label"
  shows "g = slice label i i' \<and> i \<le> i' \<and> i' \<le> length label"
proof -
  obtain g1 i1 where s1: "scan_h_c label ([], i) = (g1, i1)"
    by (cases "scan_h_c label ([], i)")
  obtain g2 i2 where s2: "scan_f_c label (g1, i1) = (g2, i2)"
    by (cases "scan_f_c label (g1, i1)")
  from assms s1 s2 have s3: "scan_d_c label (g2, i2) = (g, i')"
    by (simp add: scan_grp_def)
  from scan_h_c_slice[OF s1 assms(2)]
  have a: "g1 = slice label i i1" "i \<le> i1" "i1 \<le> length label" by auto
  from scan_f_c_slice[OF s2 a(3)]
  have b: "g2 = g1 @ slice label i1 i2" "i1 \<le> i2" "i2 \<le> length label" by auto
  from scan_d_c_slice[OF s3 b(3)]
  have c: "g = g2 @ slice label i2 i'" "i2 \<le> i'" "i' \<le> length label" by auto
  from a b c show ?thesis by (simp add: slice_append)
qed

lemma label_scan_concat:
  "label_scan label idx grps = Some gs \<Longrightarrow> idx \<le> length label \<Longrightarrow>
     concat gs = concat grps @ drop idx label"
proof (induction label idx grps rule: label_scan.induct)
  case (1 label idx grps)
  show ?case
  proof (cases "idx < length label")
    case False
    with 1 show ?thesis by (simp add: label_scan.simps[of label idx grps])
  next
    case True
    obtain g idx' where sg: "scan_grp label idx = (g, idx')"
      by (cases "scan_grp label idx")
    from scan_grp_slice[OF sg "1.prems"(2)]
    have sl: "g = slice label idx idx'" "idx \<le> idx'" "idx' \<le> length label" by auto
    from "1.prems"(1) True sg
    have ne: "idx \<noteq> idx'" and rec: "label_scan label idx' (grps @ [g]) = Some gs"
      by (auto simp: label_scan.simps[of label idx grps] split: if_splits)
    from "1.IH"[OF True sg[symmetric] ne rec sl(3)]
    have "concat gs = concat (grps @ [g]) @ drop idx' label" .
    with sl show ?thesis by (simp add: slice_drop)
  qed
qed

lemma scan_pos_reached:
  "scan_pos label idx \<Longrightarrow> \<exists>grps. label_scan label 0 [] = label_scan label idx grps"
proof (induction rule: scan_pos.induct)
  case start
  show ?case by blast
next
  case (step idx running_grp idx')
  then obtain grps where "label_scan label 0 [] = label_scan label idx grps" by blast
  with step have "label_scan label 0 [] = label_scan label idx' (grps @ [running_grp])"
    by (simp add: label_scan.simps[of label idx grps])
  then show ?case by blast
qed

lemma scan_grp_stuck_iff:
  "snd (scan_grp label idx) = idx \<longleftrightarrow>
     \<not> check_h_c label idx \<and> \<not> check_f_c label idx \<and> \<not> check_d_c label idx"
  by (auto simp: scan_grp_def scan_h_c_def scan_f_c_def scan_d_c_def Let_def)

lemma label_transform_Nil: "label_transform [] = []"
  by (simp add: label_transform_def label_scan.simps[of "[]"])

lemma label_transform_concat:
  "label_transform label \<noteq> [] \<Longrightarrow> concat (label_transform label) = label"
  using label_scan_concat[of label 0 "[]"]
  by (auto simp: label_transform_def split: option.splits if_splits)

section \<open>Claims about segmentation\<close>

text \<open>
  C9. Idempotence of segmentation: for every Hindi label, applying \<open>label_transform\<close> to the
  concatenation of the groups that \<open>label_transform\<close> returned for it yields the same group
  sequence again. When the label was rejected the returned tuple is empty, its concatenation
  is the empty string, and the empty string segments to the empty tuple; otherwise the
  groups concatenate to the label itself.
\<close>

theorem label_transform_idempotent:
  "label_transform (concat (label_transform label)) = label_transform label"
proof (cases "label_transform label = []")
  case True
  then show ?thesis by (simp add: label_transform_Nil)
next
  case False
  then show ?thesis by (simp add: label_transform_concat)
qed

text \<open>
  C6. If at a position where the segmenter starts a pass none of the half-character, the
  full-character and the diacritic test matches, the pass consumes nothing, the loop returns
  at once whatever groups it had collected, and \<open>label_transform\<close> returns the empty tuple
  for the whole label. No character is skipped: whenever the loop does hand groups to the
  validator, they concatenate to the whole label.
\<close>

theorem label_transform_stuck_rejects:
  assumes "scan_pos label idx" and "idx < length label"
    and "\<not> check_h_c label idx" and "\<not> check_f_c label idx" and "\<not> check_d_c label idx"
  shows "snd (scan_grp label idx) = idx
         \<and> (\<forall>grps. label_scan label idx grps = None)
         \<and> label_scan label 0 [] = None
         \<and> label_transform label = []
         \<and> (\<forall>l gs. label_scan l 0 [] = Some gs \<longrightarrow> concat gs = l)"
proof -
  from assms(3-5) have stuck: "snd (scan_grp label idx) = idx"
    by (simp add: scan_grp_stuck_iff)
  then have now: "label_scan label idx grps = None" for grps
    using assms(2) by (auto simp add: label_scan.simps[of label idx grps] split: prod.splits)
  from scan_pos_reached[OF assms(1)] now have top: "label_scan label 0 [] = None"
    by auto
  have whole: "concat gs = l" if "label_scan l 0 [] = Some gs" for l gs
    using label_scan_concat[OF that] by simp
  from stuck now top whole show ?thesis
    by (simp add: label_transform_def)
qed

theorem label_transform_stuck_rejects_witness:
  "scan_pos [2325, 2381, 2381] 2
   \<and> snd (scan_grp [2325, 2381, 2381] 2) = 2
   \<and> label_scan [2325, 2381, 2381] 0 [] = None
   \<and> label_transform [2325, 2381, 2381] = []"
proof -
  have first: "scan_grp [2325, 2381, 2381] 0 = ([2325, 2381], 2)"
    by (simp add: scan_eval class_eval)
  have pos: "scan_pos [2325, 2381, 2381] 2"
    by (rule scan_pos.step[OF scan_pos.start _ first]) simp_all
  have len: "2 < length [2325, 2381, 2381 :: nat]" by simp
  have h: "\<not> check_h_c [2325, 2381, 2381] 2"
    by (simp add: scan_eval class_eval)
  have f: "\<not> check_f_c [2325, 2381, 2381] 2"
    by (simp add: scan_eval class_eval)
  have d: "\<not> check_d_c [2325, 2381, 2381] 2"
    by (simp add: scan_eval class_eval)
  from label_transform_stuck_rejects[OF pos len h f d] pos show ?thesis
    by simp
qed

end
